theory Spec2Isabelle
  imports Main "HOL-Library.Word"
begin

section \<open>JavaScript values used by the plugin\<close>

text \<open>
  A JavaScript string is a sequence of UTF-16 code units; \<open>length\<close>, \<open>slice\<close>,
  \<open>split\<close> and \<open>includes\<close> all count and compare code units. The literals of
  \<^verbatim>\<open>src/main.ts\<close> are ASCII, so \<open>js\<close> embeds them unit by unit.
\<close>

type_synonym jsstring = "16 word list"

definition js :: "string \<Rightarrow> jsstring" where
  "js s = map of_char s"

text \<open>
  \<^verbatim>\<open>String.prototype.slice(start, end)\<close>: a negative index counts from the end, both
  indices are clamped to the string, and an empty span gives the empty string.
\<close>

definition slice_str :: "'a list \<Rightarrow> int \<Rightarrow> int \<Rightarrow> 'a list" where
  "slice_str s start end =
     (let len = int (length s);
          from = (if start < 0 then max (len + start) 0 else min start len);
          to = (if end < 0 then max (len + end) 0 else min end len)
      in take (nat (to - from)) (drop (nat from) s))"

text \<open>
  \<^verbatim>\<open>s.split(sep)\<close> for a separator of one code unit: every occurrence cuts, and the
  result always has at least one segment (\<^verbatim>\<open>"".split("/")\<close> is \<^verbatim>\<open>[""]\<close>).
\<close>

fun split_str :: "'a \<Rightarrow> 'a list \<Rightarrow> 'a list list" where
  "split_str sep [] = [[]]"
| "split_str sep (c # cs) =
     (if c = sep then [] # split_str sep cs
      else (case split_str sep cs of
              [] \<Rightarrow> [[c]]
            | seg # segs \<Rightarrow> (c # seg) # segs))"

text \<open>\<^verbatim>\<open>s.includes(t)\<close>: \<open>t\<close> occurs in \<open>s\<close> as a contiguous run of code units.\<close>

fun startsWith :: "'a list \<Rightarrow> 'a list \<Rightarrow> bool" where
  "startsWith s [] = True"
| "startsWith [] (y # ys) = False"
| "startsWith (x # xs) (y # ys) = (x = y \<and> startsWith xs ys)"

fun includes_str :: "'a list \<Rightarrow> 'a list \<Rightarrow> bool" where
  "includes_str [] t = startsWith [] t"
| "includes_str (x # xs) t = (startsWith (x # xs) t \<or> includes_str xs t)"

text \<open>
  Reading an array at an index: \<open>None\<close> is JavaScript's \<^verbatim>\<open>undefined\<close>, which is what
  the destructuring \<^verbatim>\<open>const [category, name] = ...\<close> binds when the array is too short.
\<close>

fun at :: "'a list \<Rightarrow> nat \<Rightarrow> 'a option" where
  "at [] i = None"
| "at (x # xs) 0 = Some x"
| "at (x # xs) (Suc i) = at xs i"

text \<open>A value interpolated into a template literal: \<^verbatim>\<open>undefined\<close> prints as its name.\<close>

fun interp :: "jsstring option \<Rightarrow> jsstring" where
  "interp None = js ''undefined''"
| "interp (Some s) = s"

text \<open>The only exception the string construction can throw: a method call on \<^verbatim>\<open>undefined\<close>.\<close>

datatype js_error = TypeError

section \<open>Data model\<close>

record TagIconPair =
  tag :: jsstring
  icon :: jsstring

record CssGeneratorSettings =
  tagIconPairs :: "TagIconPair list"

definition DEFAULT_SETTINGS :: CssGeneratorSettings where
  "DEFAULT_SETTINGS = \<lparr>tagIconPairs = []\<rparr>"

section \<open>The string construction of \<^verbatim>\<open>generateCss\<close>\<close>

text \<open>A \<^verbatim>\<open>for (const x of xs)\<close> loop over an accumulator; a throw in the body ends it.\<close>

fun forOf :: "('s \<Rightarrow> 'a \<Rightarrow> js_error + 's) \<Rightarrow> 's \<Rightarrow> 'a list \<Rightarrow> js_error + 's" where
  "forOf body s [] = Inr s"
| "forOf body s (x # xs) =
     (case body s x of
        Inl e \<Rightarrow> Inl e
      | Inr s' \<Rightarrow> forOf body s' xs)"

text \<open>First part: hide the original tag text (lines 48--59).\<close>

definition hideStep :: "jsstring \<Rightarrow> TagIconPair \<Rightarrow> js_error + jsstring" where
  "hideStep css pair =
     (let parts = split_str (of_char CHR ''/'') (tag pair);
          category = at parts 0;
          name = at parts 1;
          cleanTag = interp category @ interp name;
          css = css @ js ''.tag[href=\"#'' @ tag pair @ js ''\"],\<newline>'';
          css = css @ js ''.cm-tag-'' @ cleanTag @ js '',\<newline>''
      in case name of
           None \<Rightarrow> Inl TypeError
         | Some n \<Rightarrow>
             if includes_str n (js ''_'')
             then
               (let css = css @ js ''.cm-tag-'' @ cleanTag @ js '' + span.cm-hashtag,\<newline>'';
                    css = css @ js ''.cm-tag-'' @ cleanTag
                                @ js '' + span.cm-hashtag + .cm-hashtag,\<newline>''
                in Inr css)
             else Inr css)"

text \<open>Second part: font size of the \<^verbatim>\<open>:after\<close> pseudo-elements (lines 67--79).\<close>

definition afterStep :: "jsstring \<Rightarrow> TagIconPair \<Rightarrow> js_error + jsstring" where
  "afterStep css pair =
     (let parts = split_str (of_char CHR ''/'') (tag pair);
          category = at parts 0;
          name = at parts 1;
          cleanTag = interp category @ interp name;
          css = css @ js ''.tag[href=\"#'' @ tag pair @ js ''\"]:after,\<newline>'';
          css = css @ js ''.cm-tag-'' @ cleanTag @ js '':after,\<newline>''
      in case name of
           None \<Rightarrow> Inl TypeError
         | Some n \<Rightarrow>
             if includes_str n (js ''_'')
             then
               (let css = css @ js ''.cm-tag-'' @ cleanTag
                                @ js '' + span.cm-hashtag:after,\<newline>'';
                    css = css @ js ''.cm-tag-'' @ cleanTag
                                @ js '' + span.cm-hashtag + .cm-hashtag:after,\<newline>''
                in Inr css)
             else Inr css)"

text \<open>Third part: font size on the active line of the editor (lines 86--98).\<close>

definition activeStep :: "jsstring \<Rightarrow> TagIconPair \<Rightarrow> js_error + jsstring" where
  "activeStep css pair =
     (let parts = split_str (of_char CHR ''/'') (tag pair);
          category = at parts 0;
          name = at parts 1;
          cleanTag = interp category @ interp name;
          css = css @ js ''.cm-active .tag[href=\"#'' @ tag pair @ js ''\"],\<newline>'';
          css = css @ js ''.cm-active .cm-tag-'' @ cleanTag @ js '',\<newline>''
      in case name of
           None \<Rightarrow> Inl TypeError
         | Some n \<Rightarrow>
             if includes_str n (js ''_'')
             then
               (let css = css @ js ''.cm-active .cm-tag-'' @ cleanTag
                                @ js '' + span.cm-hashtag,\<newline>'';
                    css = css @ js ''.cm-active .cm-tag-'' @ cleanTag
                                @ js '' + span.cm-hashtag + .cm-hashtag,\<newline>''
                in Inr css)
             else Inr css)"

text \<open>
  Fourth part: one rule per pair with the icon (lines 106--117). The body calls no
  method on \<open>name\<close>, so it cannot throw.
\<close>

definition iconStep :: "jsstring \<Rightarrow> TagIconPair \<Rightarrow> js_error + jsstring" where
  "iconStep css pair =
     (let parts = split_str (of_char CHR ''/'') (tag pair);
          category = at parts 0;
          name = at parts 1;
          cleanTag = interp category @ interp name;
          css = css @ js ''.tag[href=\"#'' @ tag pair @ js ''\"]:after,\<newline>'';
          css = css @ js ''.cm-hashtag-begin.cm-tag-'' @ cleanTag @ js '':after {\<newline>'';
          css = css @ js ''  background-color: rgba(162, 93, 53, 0.1);\<newline>'';
          css = css @ js ''  border: solid 1px rgba(209, 209, 209, 0.1);\<newline>'';
          css = css @ js ''  border-radius: 3px;\<newline>'';
          css = css @ js ''  content: \"'' @ icon pair @ js ''\";\<newline>'';
          css = css @ js ''}\<newline>\<newline>''
      in Inr css)"

text \<open>The rule bodies closing the three selector lists (lines 62--65, 82--84, 101--103).\<close>

definition hideBody :: jsstring where
  "hideBody = js '' {\<newline>  font-size: 0px;\<newline>  padding: 0;\<newline>}\<newline>\<newline>''"

definition sizeBody :: jsstring where
  "sizeBody = js '' {\<newline>  font-size: var(--font-text-size);\<newline>}\<newline>\<newline>''"

text \<open>
  Lines 45--117: the accumulator \<open>css\<close> goes through the four loops; after each of
  the first three, \<^verbatim>\<open>css.slice(0, -2)\<close> cuts its last two code units and the rule body
  is appended.
\<close>

definition cssText :: "TagIconPair list \<Rightarrow> js_error + jsstring" where
  "cssText pairs =
     (case forOf hideStep [] pairs of
        Inl e \<Rightarrow> Inl e
      | Inr css \<Rightarrow>
          (let css = slice_str css 0 (- 2);
               css = css @ hideBody
           in case forOf afterStep css pairs of
                Inl e \<Rightarrow> Inl e
              | Inr css \<Rightarrow>
                  (let css = slice_str css 0 (- 2);
                       css = css @ sizeBody
                   in case forOf activeStep css pairs of
                        Inl e \<Rightarrow> Inl e
                      | Inr css \<Rightarrow>
                          (let css = slice_str css 0 (- 2);
                               css = css @ sizeBody
                           in forOf iconStep css pairs))))"

section \<open>Writing the stylesheet: the whole of \<^verbatim>\<open>generateCss\<close>\<close>

text \<open>
  The host application provides the configuration directory, the file adapter of the
  vault and the console; \<^verbatim>\<open>join\<close> comes from the \<^verbatim>\<open>path\<close> module. They are not code of
  the plugin, so they are parameters. An adapter call returns the exception it throws, if
  any, and the file system it leaves behind.
\<close>

record ('fs, 'e) host =
  configDir :: jsstring
  join :: "jsstring \<Rightarrow> jsstring \<Rightarrow> jsstring"
  adapter_mkdir :: "jsstring \<Rightarrow> 'fs \<Rightarrow> 'e option \<times> 'fs"
  adapter_write :: "jsstring \<Rightarrow> jsstring \<Rightarrow> 'fs \<Rightarrow> 'e option \<times> 'fs"

datatype 'e console_entry =
  ConsoleLog jsstring
| ConsoleError jsstring 'e

datatype adapter_call =
  Mkdir jsstring
| Write jsstring jsstring

text \<open>
  The state \<^verbatim>\<open>generateCss\<close> runs in: the settings of the plugin, the file system behind
  the adapter, the lines printed on the console, and the adapter calls made so far (kept
  to be able to say which calls a run makes).
\<close>

record ('fs, 'e) plugin =
  settings :: CssGeneratorSettings
  fs :: 'fs
  console :: "'e console_entry list"
  calls :: "adapter_call list"

text \<open>
  Lines 44--135. An exception of the string construction is thrown before the
  \<^verbatim>\<open>try\<close> block is entered and leaves \<^verbatim>\<open>generateCss\<close> (\<open>Inl\<close>: the promise is rejected).
  Inside the \<^verbatim>\<open>try\<close> block an exception of \<^verbatim>\<open>mkdir\<close> or \<^verbatim>\<open>write\<close> goes to the
  \<^verbatim>\<open>catch\<close> clause, which prints it.
\<close>

definition generateCss ::
  "('fs, 'e) host \<Rightarrow> ('fs, 'e) plugin \<Rightarrow> js_error + ('fs, 'e) plugin" where
  "generateCss h s =
     (case cssText (tagIconPairs (settings s)) of
        Inl e \<Rightarrow> Inl e
      | Inr css \<Rightarrow>
          (let snippetsFolder = join h (configDir h) (js ''snippets'');
               cssPath = join h snippetsFolder (js ''tags.css'')
           in case adapter_mkdir h snippetsFolder (fs s) of
                (Some err, fs1) \<Rightarrow>
                  Inr (s\<lparr>fs := fs1,
                         calls := calls s @ [Mkdir snippetsFolder],
                         console := console s
                           @ [ConsoleError (js ''Error writing CSS file:'') err]\<rparr>)
              | (None, fs1) \<Rightarrow>
                  (case adapter_write h cssPath css fs1 of
                     (Some err, fs2) \<Rightarrow>
                       Inr (s\<lparr>fs := fs2,
                              calls := calls s @ [Mkdir snippetsFolder, Write cssPath css],
                              console := console s
                                @ [ConsoleError (js ''Error writing CSS file:'') err]\<rparr>)
                   | (None, fs2) \<Rightarrow>
                       Inr (s\<lparr>fs := fs2,
                              calls := calls s @ [Mkdir snippetsFolder, Write cssPath css],
                              console := console s
                                @ [ConsoleLog
                                    (js ''CSS has been written to tags.css in the snippets folder'')]\<rparr>))))"

section \<open>Loading the settings\<close>

text \<open>
  \<^verbatim>\<open>loadData()\<close> gives back whatever JSON value the host has stored, or \<^verbatim>\<open>null\<close> when
  nothing is stored, so the settings are modelled as run-time values here. Numbers are
  not inspected by the plugin and stay abstract. An object is the map of its own
  properties.
\<close>

datatype 'n jsval =
  JUndefined
| JNull
| JBool bool
| JNum 'n
| JStr jsstring
| JArr "'n jsval list"
| JObj "jsstring \<Rightarrow> 'n jsval option"

text \<open>The decimal name of an array index, as a property key.\<close>

fun showNat :: "nat \<Rightarrow> jsstring" where
  "showNat n =
     (if n < 10 then [js ''0123456789'' ! n]
      else showNat (n div 10) @ [js ''0123456789'' ! (n mod 10)])"

text \<open>
  The own enumerable properties \<^verbatim>\<open>Object.assign\<close> copies from a source: none for
  \<^verbatim>\<open>null\<close>, \<^verbatim>\<open>undefined\<close>, booleans and numbers, the indexed elements of an array, the
  indexed code units of a string, and the properties of an object.
\<close>

fun ownProps :: "'n jsval \<Rightarrow> (jsstring \<Rightarrow> 'n jsval option)" where
  "ownProps JUndefined = Map.empty"
| "ownProps JNull = Map.empty"
| "ownProps (JBool b) = Map.empty"
| "ownProps (JNum n) = Map.empty"
| "ownProps (JStr s) = map_of (zip (map showNat [0..<length s]) (map (\<lambda>c. JStr [c]) s))"
| "ownProps (JArr vs) = map_of (zip (map showNat [0..<length vs]) vs)"
| "ownProps (JObj m) = m"

text \<open>
  \<^verbatim>\<open>Object.assign(target, ...sources)\<close> assigns every own enumerable property of every
  source to the target, source after source, so that later sources overwrite earlier
  ones. On a plain object an assignment to the key \<^verbatim>\<open>__proto__\<close> goes to the setter of
  the prototype and makes no own property.
\<close>

definition objectAssign ::
  "(jsstring \<Rightarrow> 'n jsval option) \<Rightarrow> 'n jsval list \<Rightarrow> (jsstring \<Rightarrow> 'n jsval option)" where
  "objectAssign target sources =
     foldl (\<lambda>t src. t ++ (ownProps src |` (- {js ''__proto__''}))) target sources"

text \<open>The run-time values of a pair and of the settings object.\<close>

definition pairVal :: "TagIconPair \<Rightarrow> 'n jsval" where
  "pairVal p = JObj [js ''tag'' \<mapsto> JStr (tag p), js ''icon'' \<mapsto> JStr (icon p)]"

definition settingsObj :: "CssGeneratorSettings \<Rightarrow> (jsstring \<Rightarrow> 'n jsval option)" where
  "settingsObj st = [js ''tagIconPairs'' \<mapsto> JArr (map pairVal (tagIconPairs st))]"

text \<open>
  Lines 32--38: \<^verbatim>\<open>this.settings = Object.assign({}, DEFAULT_SETTINGS, await this.loadData())\<close>,
  as a function of the value \<^verbatim>\<open>loadData()\<close> resolves to.
\<close>

definition loadSettings :: "'n jsval \<Rightarrow> (jsstring \<Rightarrow> 'n jsval option)" where
  "loadSettings loaded =
     objectAssign Map.empty [JObj (settingsObj DEFAULT_SETTINGS), loaded]"

section \<open>Reordering rows in the settings tab\<close>

text \<open>
  A JavaScript array read outside its bounds gives \<^verbatim>\<open>undefined\<close>, and written outside
  its bounds grows; so an array is a list of optional elements here, \<open>None\<close> being
  \<^verbatim>\<open>undefined\<close> (or a hole).
\<close>

definition arrGet :: "'a option list \<Rightarrow> nat \<Rightarrow> 'a option" where
  "arrGet xs i = (case at xs i of None \<Rightarrow> None | Some v \<Rightarrow> v)"

definition arrSet :: "'a option list \<Rightarrow> nat \<Rightarrow> 'a option \<Rightarrow> 'a option list" where
  "arrSet xs i v =
     (if i < length xs then xs[i := v]
      else xs @ replicate (i - length xs) None @ [v])"

text \<open>
  The click handlers of the buttons of the row \<open>index\<close> (lines 191--229), as functions
  of \<^verbatim>\<open>this.plugin.settings.tagIconPairs\<close>. After the swap the handlers save the
  settings and draw the tab again, which does not change the array. \<^verbatim>\<open>forEach\<close> makes
  one row for every index below the length of the array.
\<close>

definition moveUp :: "nat \<Rightarrow> 'a option list \<Rightarrow> 'a option list" where
  "moveUp index pairs =
     (if index > 0
      then
        (let temp = arrGet pairs (index - 1);
             pairs = arrSet pairs (index - 1) (arrGet pairs index);
             pairs = arrSet pairs index temp
         in pairs)
      else pairs)"

definition moveDown :: "nat \<Rightarrow> 'a option list \<Rightarrow> 'a option list" where
  "moveDown index pairs =
     (if int index < int (length pairs) - 1
      then
        (let temp = arrGet pairs (index + 1);
             pairs = arrSet pairs (index + 1) (arrGet pairs index);
             pairs = arrSet pairs index temp
         in pairs)
      else pairs)"

section \<open>The stylesheet as the specification describes it\<close>

text \<open>
  The specification describes the output as four blocks: three selector lists, each a
  list of selectors joined by a comma and a line break and closed by a rule body, and one
  rule per pair. These definitions follow that description; the theorems below compare
  them with \<open>cssText\<close>.
\<close>

fun joinWith :: "'a list \<Rightarrow> 'a list list \<Rightarrow> 'a list" where
  "joinWith sep [] = []"
| "joinWith sep [s] = s"
| "joinWith sep (s # t # ss) = s @ sep @ joinWith sep (t # ss)"

definition categoryOf :: "TagIconPair \<Rightarrow> jsstring option" where
  "categoryOf p = at (split_str (of_char CHR ''/'') (tag p)) 0"

definition nameOf :: "TagIconPair \<Rightarrow> jsstring option" where
  "nameOf p = at (split_str (of_char CHR ''/'') (tag p)) 1"

definition cleanTagOf :: "TagIconPair \<Rightarrow> jsstring" where
  "cleanTagOf p = interp (categoryOf p) @ interp (nameOf p)"

definition hasUnderscore :: "TagIconPair \<Rightarrow> bool" where
  "hasUnderscore p = (case nameOf p of None \<Rightarrow> False | Some n \<Rightarrow> includes_str n (js ''_''))"

text \<open>
  The selectors of one pair, each between a prefix and a suffix: the link of the rendered
  tag, the token of the editor and, for a name with an underscore, the token followed by
  one and by two continuation spans.
\<close>

definition selectors :: "jsstring \<Rightarrow> jsstring \<Rightarrow> TagIconPair \<Rightarrow> jsstring list" where
  "selectors pre post p =
     [pre @ js ''.tag[href=\"#'' @ tag p @ js ''\"]'' @ post,
      pre @ js ''.cm-tag-'' @ cleanTagOf p @ post]
     @ (if hasUnderscore p
        then [pre @ js ''.cm-tag-'' @ cleanTagOf p @ js '' + span.cm-hashtag'' @ post,
              pre @ js ''.cm-tag-'' @ cleanTagOf p @ js '' + span.cm-hashtag + .cm-hashtag'' @ post]
        else [])"

definition iconRule :: "TagIconPair \<Rightarrow> jsstring" where
  "iconRule p =
     js ''.tag[href=\"#'' @ tag p @ js ''\"]:after,\<newline>''
     @ js ''.cm-hashtag-begin.cm-tag-'' @ cleanTagOf p @ js '':after {\<newline>''
     @ js ''  background-color: rgba(162, 93, 53, 0.1);\<newline>''
     @ js ''  border: solid 1px rgba(209, 209, 209, 0.1);\<newline>''
     @ js ''  border-radius: 3px;\<newline>''
     @ js ''  content: \"'' @ icon p @ js ''\";\<newline>''
     @ js ''}\<newline>\<newline>''"

text \<open>
  The stylesheet put together from the selectors and the rules of the pairs, one entry
  per pair in each of the four lists.
\<close>

definition assemble ::
  "jsstring list list \<Rightarrow> jsstring list list \<Rightarrow> jsstring list list \<Rightarrow> jsstring list \<Rightarrow> jsstring" where
  "assemble hide after active rules =
     joinWith (js '',\<newline>'') (concat hide) @ hideBody
     @ joinWith (js '',\<newline>'') (concat after) @ sizeBody
     @ joinWith (js '',\<newline>'') (concat active) @ sizeBody
     @ concat rules"

text \<open>Exchanging the elements at two positions of a list.\<close>

definition transpose_at :: "nat \<Rightarrow> nat \<Rightarrow> 'a list \<Rightarrow> 'a list" where
  "transpose_at i j xs = xs[i := xs ! j, j := xs ! i]"

section \<open>Names for the theorems\<close>

text \<open>
  The two paths \<open>generateCss\<close> computes (lines 120--121), as functions of the host.
\<close>

definition snippetsFolderOf :: "('fs, 'e) host \<Rightarrow> jsstring" where
  "snippetsFolderOf h = join h (configDir h) (js ''snippets'')"

definition cssPathOf :: "('fs, 'e) host \<Rightarrow> jsstring" where
  "cssPathOf h = join h (snippetsFolderOf h) (js ''tags.css'')"

text \<open>
  Three hosts to run \<open>generateCss\<close> on: the files are a list of paths with their
  contents, newest first. The first host creates directories and writes files, the second
  refuses to create the directory, the third creates it and refuses to write.
\<close>

definition memoryHost :: "((jsstring \<times> jsstring) list, string) host" where
  "memoryHost =
     \<lparr>configDir = js ''.obsidian'',
      join = (\<lambda>a b. a @ js ''/'' @ b),
      adapter_mkdir = (\<lambda>path files. (None, files)),
      adapter_write = (\<lambda>path text files. (None, (path, text) # files))\<rparr>"

definition lockedHost :: "((jsstring \<times> jsstring) list, string) host" where
  "lockedHost = memoryHost\<lparr>adapter_mkdir := (\<lambda>path files. (Some ''EACCES'', files))\<rparr>"

definition readOnlyHost :: "((jsstring \<times> jsstring) list, string) host" where
  "readOnlyHost = memoryHost\<lparr>adapter_write := (\<lambda>path text files. (Some ''EROFS'', files))\<rparr>"

definition freshPlugin :: "TagIconPair list \<Rightarrow> ((jsstring \<times> jsstring) list, string) plugin" where
  "freshPlugin pairs =
     \<lparr>settings = \<lparr>tagIconPairs = pairs\<rparr>, fs = [], console = [], calls = []\<rparr>"

section \<open>The stylesheet on given lists\<close>

lemmas step_defs = hideStep_def afterStep_def activeStep_def iconStep_def

text \<open>
  C1. For the empty pair list the specification asks for a stylesheet without malformed
  or truncated selectors: the empty string, or well-formed rule sections only, never a
  rule body attached to an empty selector list. The code returns three rule bodies with
  no selector in front of them: the first \<^verbatim>\<open>slice(0, -2)\<close> finds nothing to cut, and the
  second and the third cut the two line breaks that closed the rule before.
\<close>

theorem cssText_empty_list:
  "cssText [] =
     Inr (js '' {\<newline>  font-size: 0px;\<newline>  padding: 0;\<newline>} {\<newline>  font-size: var(--font-text-size);\<newline>} {\<newline>  font-size: var(--font-text-size);\<newline>}\<newline>\<newline>'')"
  by (simp add: cssText_def slice_str_def hideBody_def sizeBody_def js_def)

text \<open>
  C2. The specification says that the generation raises no error on any list, a tag
  without \<^verbatim>\<open>/\<close> giving a degenerate selector. On such a tag \<open>name\<close> is \<^verbatim>\<open>undefined\<close>
  and \<^verbatim>\<open>name.includes("_")\<close> throws a \<^verbatim>\<open>TypeError\<close>, outside the \<^verbatim>\<open>try\<close> block: so
  for the row the \<^verbatim>\<open>+\<close> button adds (empty tag, empty icon), for a tag of one segment,
  and for \<^verbatim>\<open>generateCss\<close> as a whole, which then writes nothing.
\<close>

theorem cssText_tag_without_slash:
  "cssText [\<lparr>tag = [], icon = []\<rparr>] = Inl TypeError
   \<and> cssText [\<lparr>tag = js ''inbox'', icon = js ''X''\<rparr>] = Inl TypeError
   \<and> generateCss h \<lparr>settings = \<lparr>tagIconPairs = [\<lparr>tag = js ''inbox'', icon = js ''X''\<rparr>]\<rparr>,
                      fs = f, console = [], calls = []\<rparr> = Inl TypeError"
  by (simp add: generateCss_def cssText_def hideStep_def js_def)

text \<open>
  C3. For the pairs \<^verbatim>\<open>a/b\<close> with icon \<^verbatim>\<open>X\<close> and \<^verbatim>\<open>c/d\<close> with icon \<^verbatim>\<open>Y\<close>, the
  stylesheet starts with the selector list of the first block, the four selectors in this
  order, followed at once by the rule body with \<^verbatim>\<open>font-size: 0px\<close> and
  \<^verbatim>\<open>padding: 0\<close>. The theorem gives the whole stylesheet.
\<close>

theorem cssText_two_pairs:
  "cssText [\<lparr>tag = js ''a/b'', icon = js ''X''\<rparr>, \<lparr>tag = js ''c/d'', icon = js ''Y''\<rparr>] =
     Inr (js ''.tag[href=\"#a/b\"],\<newline>.cm-tag-ab,\<newline>.tag[href=\"#c/d\"],\<newline>.cm-tag-cd''
          @ js '' {\<newline>  font-size: 0px;\<newline>  padding: 0;\<newline>}\<newline>\<newline>''
          @ js ''.tag[href=\"#a/b\"]:after,\<newline>.cm-tag-ab:after,\<newline>.tag[href=\"#c/d\"]:after,\<newline>.cm-tag-cd:after''
          @ js '' {\<newline>  font-size: var(--font-text-size);\<newline>}\<newline>\<newline>''
          @ js ''.cm-active .tag[href=\"#a/b\"],\<newline>.cm-active .cm-tag-ab,\<newline>.cm-active .tag[href=\"#c/d\"],\<newline>.cm-active .cm-tag-cd''
          @ js '' {\<newline>  font-size: var(--font-text-size);\<newline>}\<newline>\<newline>''
          @ js ''.tag[href=\"#a/b\"]:after,\<newline>.cm-hashtag-begin.cm-tag-ab:after {\<newline>  background-color: rgba(162, 93, 53, 0.1);\<newline>  border: solid 1px rgba(209, 209, 209, 0.1);\<newline>  border-radius: 3px;\<newline>  content: \"X\";\<newline>}\<newline>\<newline>''
          @ js ''.tag[href=\"#c/d\"]:after,\<newline>.cm-hashtag-begin.cm-tag-cd:after {\<newline>  background-color: rgba(162, 93, 53, 0.1);\<newline>  border: solid 1px rgba(209, 209, 209, 0.1);\<newline>  border-radius: 3px;\<newline>  content: \"Y\";\<newline>}\<newline>\<newline>'')"
  by (simp add: cssText_def slice_str_def hideBody_def sizeBody_def js_def step_defs)

text \<open>
  C4. For the one pair \<^verbatim>\<open>task/inbox\<close> whose icon is the inbox tray (U+1F4E5, the code
  units D83D and DCE5), the first block lists the selectors \<^verbatim>\<open>.tag[href="#task/inbox"]\<close>
  and \<^verbatim>\<open>.cm-tag-taskinbox\<close>, and the stylesheet has a rule whose body holds \<^verbatim>\<open>content:\<close>
  with the icon between double quotes. The theorem gives the whole stylesheet.
\<close>

theorem cssText_task_inbox:
  "cssText [\<lparr>tag = js ''task/inbox'', icon = [0xD83D, 0xDCE5]\<rparr>] =
     Inr (js ''.tag[href=\"#task/inbox\"]'' @ js '',\<newline>'' @ js ''.cm-tag-taskinbox''
          @ js '' {\<newline>  font-size: 0px;\<newline>  padding: 0;\<newline>}\<newline>\<newline>''
          @ js ''.tag[href=\"#task/inbox\"]:after,\<newline>.cm-tag-taskinbox:after''
          @ js '' {\<newline>  font-size: var(--font-text-size);\<newline>}\<newline>\<newline>''
          @ js ''.cm-active .tag[href=\"#task/inbox\"],\<newline>.cm-active .cm-tag-taskinbox''
          @ js '' {\<newline>  font-size: var(--font-text-size);\<newline>}\<newline>\<newline>''
          @ js ''.tag[href=\"#task/inbox\"]:after,\<newline>.cm-hashtag-begin.cm-tag-taskinbox:after {\<newline>  background-color: rgba(162, 93, 53, 0.1);\<newline>  border: solid 1px rgba(209, 209, 209, 0.1);\<newline>  border-radius: 3px;\<newline>''
          @ js ''  content: \"'' @ [0xD83D, 0xDCE5] @ js ''\";\<newline>''
          @ js ''}\<newline>\<newline>'')"
  by (simp add: cssText_def slice_str_def hideBody_def sizeBody_def js_def step_defs)

section \<open>The loops and the selector lists\<close>

lemmas eval_defs = cssText_def slice_str_def hideBody_def sizeBody_def js_def step_defs

lemmas spec_defs = nameOf_def categoryOf_def cleanTagOf_def hasUnderscore_def selectors_def

text \<open>A loop whose body only appends to the accumulator appends the pieces in list order.\<close>

lemma forOf_appends:
  assumes "\<And>s x. x \<in> set xs \<Longrightarrow> body s x = Inr (s @ g x)"
  shows "forOf body s xs = Inr (s @ concat (map g xs))"
  using assms by (induction xs arbitrary: s) simp_all

text \<open>A loop that returns has run its body on every element without a throw.\<close>

lemma forOf_Inr_each:
  assumes "forOf body s xs = Inr r" and "x \<in> set xs"
  shows "\<exists>s' r'. body s' x = Inr r'"
  using assms
proof (induction xs arbitrary: s)
  case Nil
  then show ?case by simp
next
  case (Cons y ys)
  then obtain s1 where s1: "body s y = Inr s1" and rest: "forOf body s1 ys = Inr r"
    by (auto split: sum.splits)
  show ?case
  proof (cases "x = y")
    case True
    with s1 show ?thesis by blast
  next
    case False
    with Cons.prems have "x \<in> set ys" by simp
    with Cons.IH rest show ?thesis by blast
  qed
qed

lemma joinWith_terminated:
  "S \<noteq> [] \<Longrightarrow> concat (map (\<lambda>s. s @ sep) S) = joinWith sep S @ sep"
  by (induction sep S rule: joinWith.induct) simp_all

lemma concat_map_concat:
  "concat (map (\<lambda>x. concat (map f (g x))) xs) = concat (map f (concat (map g xs)))"
  by (induction xs) simp_all

lemma slice_last_two:
  "length sep = 2 \<Longrightarrow> slice_str (xs @ sep) 0 (- 2) = xs"
  by (simp add: slice_str_def)

lemma selectors_not_empty: "selectors pre post p \<noteq> []"
  by (simp add: selectors_def)

lemma all_selectors_not_empty:
  "pairs \<noteq> [] \<Longrightarrow> concat (map (selectors pre post) pairs) \<noteq> []"
  by (cases pairs) (simp_all add: selectors_not_empty)

text \<open>
  The bodies of the four loops against the description: on a pair whose tag has a second
  segment, each of the first three appends the selectors of the pair, every one followed
  by a comma and a line break; the fourth appends the rule of the pair.
\<close>

lemma hideStep_selectors:
  "nameOf p = Some n \<Longrightarrow>
   hideStep css p = Inr (css @ concat (map (\<lambda>s. s @ js '',\<newline>'') (selectors [] [] p)))"
  by (simp add: hideStep_def spec_defs Let_def js_def)

lemma afterStep_selectors:
  "nameOf p = Some n \<Longrightarrow>
   afterStep css p =
     Inr (css @ concat (map (\<lambda>s. s @ js '',\<newline>'') (selectors [] (js '':after'') p)))"
  by (simp add: afterStep_def spec_defs Let_def js_def)

lemma activeStep_selectors:
  "nameOf p = Some n \<Longrightarrow>
   activeStep css p =
     Inr (css @ concat (map (\<lambda>s. s @ js '',\<newline>'') (selectors (js ''.cm-active '') [] p)))"
  by (simp add: activeStep_def spec_defs Let_def js_def)

lemma iconStep_rule: "iconStep css p = Inr (css @ iconRule p)"
  by (simp add: iconStep_def iconRule_def spec_defs Let_def js_def)

lemma hideStep_undefined: "nameOf p = None \<Longrightarrow> hideStep css p = Inl TypeError"
  by (simp add: hideStep_def spec_defs Let_def)

lemma forOf_selectors:
  assumes "\<And>css p n. nameOf p = Some n \<Longrightarrow>
             body css p = Inr (css @ concat (map (\<lambda>s. s @ sep) (selectors pre post p)))"
    and "\<forall>p\<in>set pairs. nameOf p \<noteq> None"
  shows "forOf body css pairs =
           Inr (css @ concat (map (\<lambda>s. s @ sep) (concat (map (selectors pre post) pairs))))"
proof -
  have "forOf body css pairs =
          Inr (css @ concat (map (\<lambda>p. concat (map (\<lambda>s. s @ sep) (selectors pre post p))) pairs))"
  proof (rule forOf_appends)
    fix s x
    assume "x \<in> set pairs"
    with assms(2) obtain n where "nameOf x = Some n" by auto
    then show "body s x = Inr (s @ concat (map (\<lambda>s. s @ sep) (selectors pre post x)))"
      by (rule assms(1))
  qed
  then show ?thesis by (simp only: concat_map_concat)
qed

text \<open>
  One selector list: on a list that is not empty, the loop followed by
  \<^verbatim>\<open>slice(0, -2)\<close> leaves the selectors joined, the last separator cut.
\<close>

lemma selector_block:
  assumes "\<And>css p n. nameOf p = Some n \<Longrightarrow>
             body css p = Inr (css @ concat (map (\<lambda>s. s @ js '',\<newline>'') (selectors pre post p)))"
    and "\<forall>p\<in>set pairs. nameOf p \<noteq> None"
    and "pairs \<noteq> []"
  shows "\<exists>out. forOf body css pairs = Inr out
           \<and> slice_str out 0 (- 2) =
               css @ joinWith (js '',\<newline>'') (concat (map (selectors pre post) pairs))"
proof -
  let ?S = "concat (map (selectors pre post) pairs)"
  have len: "length (js '',\<newline>'') = 2" by (simp add: js_def)
  have "forOf body css pairs = Inr (css @ concat (map (\<lambda>s. s @ js '',\<newline>'') ?S))"
    using assms(1,2) by (rule forOf_selectors)
  moreover have "concat (map (\<lambda>s. s @ js '',\<newline>'') ?S)
                   = joinWith (js '',\<newline>'') ?S @ js '',\<newline>''"
    using all_selectors_not_empty [OF assms(3)] by (rule joinWith_terminated)
  moreover have "slice_str ((css @ joinWith (js '',\<newline>'') ?S) @ js '',\<newline>'') 0 (- 2)
                   = css @ joinWith (js '',\<newline>'') ?S"
    using len by (rule slice_last_two)
  ultimately show ?thesis by simp
qed

text \<open>
  The stylesheet of a list that is not empty and whose tags all have a second segment is
  the one the specification describes.
\<close>

lemma cssText_assemble:
  assumes names: "\<forall>p\<in>set pairs. nameOf p \<noteq> None" and ne: "pairs \<noteq> []"
  shows "cssText pairs =
           Inr (assemble (map (selectors [] []) pairs)
                         (map (selectors [] (js '':after'')) pairs)
                         (map (selectors (js ''.cm-active '') []) pairs)
                         (map iconRule pairs))"
proof -
  let ?sep = "js '',\<newline>''"
  let ?H = "joinWith ?sep (concat (map (selectors [] []) pairs))"
  let ?A = "joinWith ?sep (concat (map (selectors [] (js '':after'')) pairs))"
  let ?C = "joinWith ?sep (concat (map (selectors (js ''.cm-active '') []) pairs))"
  have "\<exists>out. forOf hideStep [] pairs = Inr out \<and> slice_str out 0 (- 2) = [] @ ?H"
    by (rule selector_block [OF _ names ne]) (erule hideStep_selectors)
  then obtain o1 where o1: "forOf hideStep [] pairs = Inr o1" "slice_str o1 0 (- 2) = [] @ ?H"
    by blast
  have "\<exists>out. forOf afterStep (?H @ hideBody) pairs = Inr out
          \<and> slice_str out 0 (- 2) = (?H @ hideBody) @ ?A"
    by (rule selector_block [OF _ names ne]) (erule afterStep_selectors)
  then obtain o2 where o2: "forOf afterStep (?H @ hideBody) pairs = Inr o2"
      "slice_str o2 0 (- 2) = (?H @ hideBody) @ ?A"
    by blast
  have "\<exists>out. forOf activeStep (?H @ hideBody @ ?A @ sizeBody) pairs = Inr out
          \<and> slice_str out 0 (- 2) = (?H @ hideBody @ ?A @ sizeBody) @ ?C"
    by (rule selector_block [OF _ names ne]) (erule activeStep_selectors)
  then obtain o3 where o3: "forOf activeStep (?H @ hideBody @ ?A @ sizeBody) pairs = Inr o3"
      "slice_str o3 0 (- 2) = (?H @ hideBody @ ?A @ sizeBody) @ ?C"
    by blast
  have o4: "forOf iconStep s pairs = Inr (s @ concat (map iconRule pairs))" for s
    by (rule forOf_appends) (rule iconStep_rule)
  show ?thesis
    using o1 o2 o3 by (simp add: cssText_def assemble_def o4)
qed

text \<open>When the generation returns, and when it throws.\<close>

lemma cssText_Inr_names:
  assumes "cssText pairs = Inr css"
  shows "\<forall>p\<in>set pairs. nameOf p \<noteq> None"
proof
  fix p assume p: "p \<in> set pairs"
  from assms obtain r where "forOf hideStep [] pairs = Inr r"
    by (auto simp: cssText_def split: sum.splits)
  from forOf_Inr_each [OF this p] obtain s' r' where "hideStep s' p = Inr r'" by blast
  then show "nameOf p \<noteq> None"
    using hideStep_undefined [of p s'] by auto
qed

lemma cssText_returns:
  assumes "\<forall>p\<in>set pairs. nameOf p \<noteq> None"
  shows "\<exists>css. cssText pairs = Inr css"
proof (cases "pairs = []")
  case True
  then show ?thesis by (simp add: cssText_def)
next
  case False
  with assms show ?thesis by (simp add: cssText_assemble)
qed

lemma split_str_not_Nil: "split_str sep s \<noteq> []"
  by (induction s) (auto split: list.splits)

lemma name_defined_iff: "at (split_str sep s) 1 = None \<longleftrightarrow> sep \<notin> set s"
  using split_str_not_Nil [of sep] by (induction s) (auto split: list.splits)

lemma forOf_hideStep_throws:
  "\<exists>p\<in>set pairs. nameOf p = None \<Longrightarrow> forOf hideStep css pairs = Inl TypeError"
proof (induction pairs arbitrary: css)
  case Nil
  then show ?case by simp
next
  case (Cons q qs)
  show ?case
  proof (cases "nameOf q")
    case None
    then show ?thesis by (simp add: hideStep_undefined)
  next
    case (Some n)
    with Cons.prems have "\<exists>p\<in>set qs. nameOf p = None" by auto
    then show ?thesis using Cons.IH by (simp add: hideStep_selectors [OF Some])
  qed
qed

text \<open>The generation throws exactly on the lists with a tag that has no \<^verbatim>\<open>/\<close>.\<close>

lemma cssText_throws_iff:
  "cssText pairs = Inl e \<longleftrightarrow> (\<exists>p\<in>set pairs. of_char CHR ''/'' \<notin> set (tag p))"
proof
  assume thrown: "cssText pairs = Inl e"
  have "\<not> (\<forall>p\<in>set pairs. nameOf p \<noteq> None)"
  proof
    assume "\<forall>p\<in>set pairs. nameOf p \<noteq> None"
    from cssText_returns [OF this] thrown show False by auto
  qed
  then obtain p where "p \<in> set pairs" and "nameOf p = None" by blast
  then show "\<exists>p\<in>set pairs. of_char CHR ''/'' \<notin> set (tag p)"
    unfolding nameOf_def name_defined_iff by blast
next
  assume "\<exists>p\<in>set pairs. of_char CHR ''/'' \<notin> set (tag p)"
  then have "\<exists>p\<in>set pairs. nameOf p = None"
    unfolding nameOf_def name_defined_iff .
  then have "forOf hideStep [] pairs = Inl TypeError"
    by (rule forOf_hideStep_throws)
  then show "cssText pairs = Inl e"
    by (cases e) (simp add: cssText_def)
qed

lemma map_transpose_at:
  "i < length xs \<Longrightarrow> j < length xs \<Longrightarrow> map f (transpose_at i j xs) = transpose_at i j (map f xs)"
  by (simp add: transpose_at_def map_update)

lemma set_transpose_at:
  "i < length xs \<Longrightarrow> j < length xs \<Longrightarrow> set (transpose_at i j xs) = set xs"
  by (simp add: transpose_at_def)

lemma underscore_selectors:
  assumes "p \<in> set pairs" and "hasUnderscore p"
  shows "pre @ js ''.cm-tag-'' @ cleanTagOf p @ js '' + span.cm-hashtag'' @ post
           \<in> set (concat (map (selectors pre post) pairs))"
    and "pre @ js ''.cm-tag-'' @ cleanTagOf p @ js '' + span.cm-hashtag + .cm-hashtag'' @ post
           \<in> set (concat (map (selectors pre post) pairs))"
  using assms by (auto simp: selectors_def)

section \<open>Selectors of a name with an underscore, and the order of the pairs\<close>

text \<open>
  C5. For every pair whose name (the second segment of the tag) contains an underscore,
  each of the three selector lists also holds the two selectors of the continuation
  spans of that pair, \<^verbatim>\<open>.cm-tag-<cleanTag> + span.cm-hashtag\<close> and
  \<^verbatim>\<open>.cm-tag-<cleanTag> + span.cm-hashtag + .cm-hashtag\<close>: as they are in the first
  block, followed by \<^verbatim>\<open>:after\<close> in the second, and after \<^verbatim>\<open>.cm-active\<close> in the third.
  The theorem is about a list on which the generation returns: the stylesheet is the
  three joined selector lists, each closed by its rule body, and the rules of the pairs,
  and the two selectors are entries of each list.
\<close>

theorem underscore_selectors_in_every_block:
  assumes "cssText pairs = Inr css"
    and "p \<in> set pairs"
    and "nameOf p = Some n"
    and "includes_str n (js ''_'')"
  shows "css = assemble (map (selectors [] []) pairs)
                        (map (selectors [] (js '':after'')) pairs)
                        (map (selectors (js ''.cm-active '') []) pairs)
                        (map iconRule pairs)
    \<and> js ''.cm-tag-'' @ cleanTagOf p @ js '' + span.cm-hashtag''
        \<in> set (concat (map (selectors [] []) pairs))
    \<and> js ''.cm-tag-'' @ cleanTagOf p @ js '' + span.cm-hashtag + .cm-hashtag''
        \<in> set (concat (map (selectors [] []) pairs))
    \<and> js ''.cm-tag-'' @ cleanTagOf p @ js '' + span.cm-hashtag'' @ js '':after''
        \<in> set (concat (map (selectors [] (js '':after'')) pairs))
    \<and> js ''.cm-tag-'' @ cleanTagOf p @ js '' + span.cm-hashtag + .cm-hashtag'' @ js '':after''
        \<in> set (concat (map (selectors [] (js '':after'')) pairs))
    \<and> js ''.cm-active '' @ js ''.cm-tag-'' @ cleanTagOf p @ js '' + span.cm-hashtag''
        \<in> set (concat (map (selectors (js ''.cm-active '') []) pairs))
    \<and> js ''.cm-active '' @ js ''.cm-tag-'' @ cleanTagOf p @ js '' + span.cm-hashtag + .cm-hashtag''
        \<in> set (concat (map (selectors (js ''.cm-active '') []) pairs))"
proof -
  have names: "\<forall>q\<in>set pairs. nameOf q \<noteq> None"
    using assms(1) by (rule cssText_Inr_names)
  have ne: "pairs \<noteq> []" using assms(2) by auto
  have u: "hasUnderscore p" using assms(3,4) by (simp add: hasUnderscore_def)
  have css: "css = assemble (map (selectors [] []) pairs)
                        (map (selectors [] (js '':after'')) pairs)
                        (map (selectors (js ''.cm-active '') []) pairs)
                        (map iconRule pairs)"
    using cssText_assemble [OF names ne] assms(1) by simp
  note sel = underscore_selectors [OF assms(2) u]
  show ?thesis
    using css sel [of "[]" "[]"] sel [of "[]" "js '':after''"] sel [of "js ''.cm-active ''" "[]"]
    by simp
qed

theorem underscore_selectors_in_every_block_witness:
  "\<exists>css. cssText [\<lparr>tag = js ''status/in_progress'', icon = [0xD83D, 0xDD04]\<rparr>] = Inr css
     \<and> nameOf \<lparr>tag = js ''status/in_progress'', icon = [0xD83D, 0xDD04]\<rparr> = Some (js ''in_progress'')
     \<and> includes_str (js ''in_progress'') (js ''_'')
     \<and> cleanTagOf \<lparr>tag = js ''status/in_progress'', icon = [0xD83D, 0xDD04]\<rparr>
           = js ''statusin_progress''
     \<and> js ''.cm-active '' @ js ''.cm-tag-''
           @ cleanTagOf \<lparr>tag = js ''status/in_progress'', icon = [0xD83D, 0xDD04]\<rparr>
           @ js '' + span.cm-hashtag + .cm-hashtag''
         \<in> set (concat (map (selectors (js ''.cm-active '') [])
                    [\<lparr>tag = js ''status/in_progress'', icon = [0xD83D, 0xDD04]\<rparr>]))"
proof -
  let ?p = "\<lparr>tag = js ''status/in_progress'', icon = [0xD83D, 0xDD04]\<rparr>"
  have "\<exists>css. cssText [?p] = Inr css"
    by (simp add: eval_defs)
  then obtain css where run: "cssText [?p] = Inr css" ..
  have mem: "?p \<in> set [?p]" by simp
  have name: "nameOf ?p = Some (js ''in_progress'')"
    by (simp add: nameOf_def js_def)
  have incl: "includes_str (js ''in_progress'') (js ''_'')"
    by (simp add: js_def)
  have clean: "cleanTagOf ?p = js ''statusin_progress''"
    by (simp add: cleanTagOf_def categoryOf_def nameOf_def js_def)
  from underscore_selectors_in_every_block [OF run mem name incl] run name incl clean
  show ?thesis by blast
qed

text \<open>
  C7. The selectors of the first three blocks and the rules of the fourth follow the
  order of the list. For a list on which the generation returns and two positions in
  it: the stylesheet is put together from one entry per pair in each block, in list
  order, and the stylesheet of the list with the two pairs exchanged is put together from
  the same entries with those of the two pairs exchanged in each of the four blocks.
\<close>

theorem transposed_pairs_transposed_output:
  assumes "cssText pairs = Inr css"
    and "i < length pairs"
    and "j < length pairs"
  shows "css = assemble (map (selectors [] []) pairs)
                        (map (selectors [] (js '':after'')) pairs)
                        (map (selectors (js ''.cm-active '') []) pairs)
                        (map iconRule pairs)
    \<and> cssText (transpose_at i j pairs) =
        Inr (assemble (transpose_at i j (map (selectors [] []) pairs))
                      (transpose_at i j (map (selectors [] (js '':after'')) pairs))
                      (transpose_at i j (map (selectors (js ''.cm-active '') []) pairs))
                      (transpose_at i j (map iconRule pairs)))"
proof -
  have names: "\<forall>q\<in>set pairs. nameOf q \<noteq> None"
    using assms(1) by (rule cssText_Inr_names)
  have ne: "pairs \<noteq> []" using assms(2) by auto
  have names': "\<forall>q\<in>set (transpose_at i j pairs). nameOf q \<noteq> None"
    using names assms(2,3) by (simp add: set_transpose_at)
  have ne': "transpose_at i j pairs \<noteq> []"
    using ne by (simp add: transpose_at_def)
  have "css = assemble (map (selectors [] []) pairs)
                        (map (selectors [] (js '':after'')) pairs)
                        (map (selectors (js ''.cm-active '') []) pairs)
                        (map iconRule pairs)"
    using cssText_assemble [OF names ne] assms(1) by simp
  moreover have "cssText (transpose_at i j pairs) =
        Inr (assemble (transpose_at i j (map (selectors [] []) pairs))
                      (transpose_at i j (map (selectors [] (js '':after'')) pairs))
                      (transpose_at i j (map (selectors (js ''.cm-active '') []) pairs))
                      (transpose_at i j (map iconRule pairs)))"
    using cssText_assemble [OF names' ne'] assms(2,3) by (simp add: map_transpose_at)
  ultimately show ?thesis by simp
qed

theorem transposed_pairs_transposed_output_witness:
  "\<exists>css. cssText [\<lparr>tag = js ''a/b'', icon = js ''X''\<rparr>, \<lparr>tag = js ''c/d'', icon = js ''Y''\<rparr>] = Inr css
     \<and> (0::nat) < length [\<lparr>tag = js ''a/b'', icon = js ''X''\<rparr>, \<lparr>tag = js ''c/d'', icon = js ''Y''\<rparr>]
     \<and> (1::nat) < length [\<lparr>tag = js ''a/b'', icon = js ''X''\<rparr>, \<lparr>tag = js ''c/d'', icon = js ''Y''\<rparr>]
     \<and> cssText [\<lparr>tag = js ''c/d'', icon = js ''Y''\<rparr>, \<lparr>tag = js ''a/b'', icon = js ''X''\<rparr>] =
         Inr (assemble
               [selectors [] [] \<lparr>tag = js ''c/d'', icon = js ''Y''\<rparr>,
                selectors [] [] \<lparr>tag = js ''a/b'', icon = js ''X''\<rparr>]
               [selectors [] (js '':after'') \<lparr>tag = js ''c/d'', icon = js ''Y''\<rparr>,
                selectors [] (js '':after'') \<lparr>tag = js ''a/b'', icon = js ''X''\<rparr>]
               [selectors (js ''.cm-active '') [] \<lparr>tag = js ''c/d'', icon = js ''Y''\<rparr>,
                selectors (js ''.cm-active '') [] \<lparr>tag = js ''a/b'', icon = js ''X''\<rparr>]
               [iconRule \<lparr>tag = js ''c/d'', icon = js ''Y''\<rparr>,
                iconRule \<lparr>tag = js ''a/b'', icon = js ''X''\<rparr>])"
proof -
  let ?ab = "\<lparr>tag = js ''a/b'', icon = js ''X''\<rparr>"
  let ?cd = "\<lparr>tag = js ''c/d'', icon = js ''Y''\<rparr>"
  have "\<exists>css. cssText [?ab, ?cd] = Inr css"
    by (simp add: eval_defs)
  then obtain css where run: "cssText [?ab, ?cd] = Inr css" ..
  have i: "(0::nat) < length [?ab, ?cd]" and j: "(1::nat) < length [?ab, ?cd]"
    by simp_all
  have t: "transpose_at 0 (Suc 0) [x, y] = [y, x]" for x y :: 'a
    by (simp add: transpose_at_def)
  from transposed_pairs_transposed_output [OF run i j] run i j
  show ?thesis by (simp add: t)
qed

section \<open>One run and two runs of \<open>generateCss\<close>\<close>

text \<open>
  A run that returns has built the stylesheet, has left the settings as they were, and
  has called \<^verbatim>\<open>mkdir\<close> once and \<^verbatim>\<open>write\<close> at most once, with the stylesheet.
\<close>

lemma generateCss_Inr:
  assumes "generateCss h s = Inr s1"
  shows "\<exists>css. cssText (tagIconPairs (settings s)) = Inr css
           \<and> settings s1 = settings s
           \<and> (calls s1 = calls s @ [Mkdir (snippetsFolderOf h)]
              \<or> calls s1 = calls s @ [Mkdir (snippetsFolderOf h), Write (cssPathOf h) css])"
proof (cases "cssText (tagIconPairs (settings s))")
  case (Inl e)
  with assms show ?thesis by (simp add: generateCss_def)
next
  case (Inr css)
  obtain m fs1 where m: "adapter_mkdir h (snippetsFolderOf h) (fs s) = (m, fs1)"
    by (cases "adapter_mkdir h (snippetsFolderOf h) (fs s)")
  obtain w fs2 where w: "adapter_write h (cssPathOf h) css fs1 = (w, fs2)"
    by (cases "adapter_write h (cssPathOf h) css fs1")
  from assms Inr m w show ?thesis
    by (cases m; cases w)
       (auto simp: generateCss_def Let_def snippetsFolderOf_def cssPathOf_def)
qed

lemma generateCss_returns:
  assumes "cssText (tagIconPairs (settings s)) = Inr css"
  shows "\<exists>s1. generateCss h s = Inr s1"
  using assms by (auto simp: generateCss_def Let_def split: prod.splits option.splits)

text \<open>
  C6. The generation is deterministic: two runs on the same list give the same text,
  unit for unit. The theorem takes a second run that starts where the first one ended,
  with the files and the console the first one left, possibly on another host: the
  first run does not change the settings, both runs build the same stylesheet, and every
  \<^verbatim>\<open>write\<close> of the two runs has this stylesheet as its text.
\<close>

theorem generateCss_twice_same_text:
  assumes "generateCss h s = Inr s1"
    and "generateCss h' s1 = Inr s2"
  shows "\<exists>css. cssText (tagIconPairs (settings s)) = Inr css
           \<and> cssText (tagIconPairs (settings s1)) = Inr css
           \<and> settings s2 = settings s
           \<and> (\<forall>path text. Write path text \<in> set (drop (length (calls s)) (calls s2))
                  \<longrightarrow> text = css)"
proof -
  from generateCss_Inr [OF assms(1)] obtain css where
    1: "cssText (tagIconPairs (settings s)) = Inr css" "settings s1 = settings s"
       "calls s1 = calls s @ [Mkdir (snippetsFolderOf h)]
        \<or> calls s1 = calls s @ [Mkdir (snippetsFolderOf h), Write (cssPathOf h) css]"
    by blast
  from generateCss_Inr [OF assms(2)] obtain css' where
    2: "cssText (tagIconPairs (settings s1)) = Inr css'" "settings s2 = settings s1"
       "calls s2 = calls s1 @ [Mkdir (snippetsFolderOf h')]
        \<or> calls s2 = calls s1 @ [Mkdir (snippetsFolderOf h'), Write (cssPathOf h') css']"
    by blast
  from 1 2 have same: "css' = css" by simp
  have "\<forall>path text. Write path text \<in> set (drop (length (calls s)) (calls s2)) \<longrightarrow> text = css"
    using 1(3) 2(3) unfolding same by auto
  with 1 2 same show ?thesis by simp
qed

theorem generateCss_twice_same_text_witness:
  "\<exists>s1 s2 css.
      generateCss memoryHost (freshPlugin [\<lparr>tag = js ''a/b'', icon = js ''X''\<rparr>]) = Inr s1
    \<and> generateCss readOnlyHost s1 = Inr s2
    \<and> cssText [\<lparr>tag = js ''a/b'', icon = js ''X''\<rparr>] = Inr css
    \<and> cssText (tagIconPairs (settings s1)) = Inr css
    \<and> calls s2 = [Mkdir (js ''.obsidian/snippets''), Write (js ''.obsidian/snippets/tags.css'') css,
                   Mkdir (js ''.obsidian/snippets''), Write (js ''.obsidian/snippets/tags.css'') css]"
proof -
  let ?s = "freshPlugin [\<lparr>tag = js ''a/b'', icon = js ''X''\<rparr>]"
  have "\<exists>css. cssText (tagIconPairs (settings ?s)) = Inr css"
    by (simp add: freshPlugin_def eval_defs)
  then obtain css0 where c0: "cssText (tagIconPairs (settings ?s)) = Inr css0" ..
  from generateCss_returns [OF c0] obtain s1 where r1: "generateCss memoryHost ?s = Inr s1" ..
  from generateCss_Inr [OF r1] c0 have "cssText (tagIconPairs (settings s1)) = Inr css0"
    by auto
  from generateCss_returns [OF this] obtain s2 where r2: "generateCss readOnlyHost s1 = Inr s2" ..
  have paths: "snippetsFolderOf memoryHost = js ''.obsidian/snippets''"
      "cssPathOf memoryHost = js ''.obsidian/snippets/tags.css''"
      "snippetsFolderOf readOnlyHost = js ''.obsidian/snippets''"
      "cssPathOf readOnlyHost = js ''.obsidian/snippets/tags.css''"
    by (simp_all add: snippetsFolderOf_def cssPathOf_def memoryHost_def readOnlyHost_def js_def)
  have s1: "s1 = ?s\<lparr>fs := [(cssPathOf memoryHost, css0)],
                     calls := [Mkdir (snippetsFolderOf memoryHost), Write (cssPathOf memoryHost) css0],
                     console := [ConsoleLog (js ''CSS has been written to tags.css in the snippets folder'')]\<rparr>"
    using r1 c0
    by (simp add: generateCss_def Let_def memoryHost_def snippetsFolderOf_def cssPathOf_def
        freshPlugin_def)
  have c1: "cssText (tagIconPairs (settings s1)) = Inr css0"
    using c0 by (simp add: s1)
  have s2: "calls s2 = calls s1 @ [Mkdir (snippetsFolderOf readOnlyHost),
                                   Write (cssPathOf readOnlyHost) css0]"
    using r2 c1
    by (auto simp: generateCss_def Let_def readOnlyHost_def memoryHost_def snippetsFolderOf_def
        cssPathOf_def)
  from generateCss_twice_same_text [OF r1 r2] obtain css where
    w: "cssText (tagIconPairs (settings ?s)) = Inr css"
       "cssText (tagIconPairs (settings s1)) = Inr css"
    by blast
  with c0 have "css = css0" by simp
  with w r1 r2 s1 s2 paths show ?thesis
    by (auto simp: freshPlugin_def)
qed

text \<open>
  C8. If creating the directory or writing the file fails, \<open>generateCss\<close> catches the
  exception, prints it with \<^verbatim>\<open>console.error\<close> and returns: the exception does not
  leave \<open>generateCss\<close>, and nothing is tried again. The theorem gives the state at the
  end: one line more on the console, the error; \<^verbatim>\<open>mkdir\<close> called once if it failed,
  \<^verbatim>\<open>mkdir\<close> and \<^verbatim>\<open>write\<close> called once each if \<^verbatim>\<open>write\<close> failed.
\<close>

theorem generateCss_swallows_adapter_errors:
  assumes "cssText (tagIconPairs (settings s)) = Inr css"
    and "adapter_mkdir h (snippetsFolderOf h) (fs s) = (m, fs1)"
    and "adapter_write h (cssPathOf h) css fs1 = (w, fs2)"
    and "m = Some err \<or> (m = None \<and> w = Some err)"
  shows "generateCss h s =
           Inr (s\<lparr>fs := (if m = None then fs2 else fs1),
                  calls := calls s
                    @ (if m = None
                       then [Mkdir (snippetsFolderOf h), Write (cssPathOf h) css]
                       else [Mkdir (snippetsFolderOf h)]),
                  console := console s @ [ConsoleError (js ''Error writing CSS file:'') err]\<rparr>)"
  using assms by (auto simp: generateCss_def Let_def snippetsFolderOf_def cssPathOf_def)

theorem generateCss_swallows_adapter_errors_witness:
  "\<exists>css. cssText [\<lparr>tag = js ''a/b'', icon = js ''X''\<rparr>] = Inr css
    \<and> generateCss lockedHost (freshPlugin [\<lparr>tag = js ''a/b'', icon = js ''X''\<rparr>]) =
        Inr \<lparr>settings = \<lparr>tagIconPairs = [\<lparr>tag = js ''a/b'', icon = js ''X''\<rparr>]\<rparr>,
             fs = [],
             console = [ConsoleError (js ''Error writing CSS file:'') ''EACCES''],
             calls = [Mkdir (js ''.obsidian/snippets'')]\<rparr>
    \<and> generateCss readOnlyHost (freshPlugin [\<lparr>tag = js ''a/b'', icon = js ''X''\<rparr>]) =
        Inr \<lparr>settings = \<lparr>tagIconPairs = [\<lparr>tag = js ''a/b'', icon = js ''X''\<rparr>]\<rparr>,
             fs = [],
             console = [ConsoleError (js ''Error writing CSS file:'') ''EROFS''],
             calls = [Mkdir (js ''.obsidian/snippets''),
                      Write (js ''.obsidian/snippets/tags.css'') css]\<rparr>"
proof -
  let ?s = "freshPlugin [\<lparr>tag = js ''a/b'', icon = js ''X''\<rparr>]"
  have "\<exists>css. cssText (tagIconPairs (settings ?s)) = Inr css"
    by (simp add: freshPlugin_def eval_defs)
  then obtain css where c: "cssText (tagIconPairs (settings ?s)) = Inr css" ..
  have paths: "snippetsFolderOf lockedHost = js ''.obsidian/snippets''"
      "cssPathOf lockedHost = js ''.obsidian/snippets/tags.css''"
      "snippetsFolderOf readOnlyHost = js ''.obsidian/snippets''"
      "cssPathOf readOnlyHost = js ''.obsidian/snippets/tags.css''"
    by (simp_all add: snippetsFolderOf_def cssPathOf_def memoryHost_def readOnlyHost_def
        lockedHost_def js_def)
  have m1: "adapter_mkdir lockedHost (snippetsFolderOf lockedHost) (fs ?s) = (Some ''EACCES'', [])"
    by (simp add: lockedHost_def freshPlugin_def)
  have w1: "adapter_write lockedHost (cssPathOf lockedHost) css []
              = (None, [(cssPathOf lockedHost, css)])"
    by (simp add: lockedHost_def memoryHost_def)
  have f1: "Some ''EACCES'' = Some ''EACCES'' \<or> (Some ''EACCES'' = None \<and> None = Some ''EACCES'')"
    by simp
  have m2: "adapter_mkdir readOnlyHost (snippetsFolderOf readOnlyHost) (fs ?s) = (None, [])"
    by (simp add: readOnlyHost_def memoryHost_def freshPlugin_def)
  have w2: "adapter_write readOnlyHost (cssPathOf readOnlyHost) css [] = (Some ''EROFS'', [])"
    by (simp add: readOnlyHost_def)
  have f2: "None = Some ''EROFS'' \<or> ((None :: string option) = None \<and> Some ''EROFS'' = Some ''EROFS'')"
    by simp
  from generateCss_swallows_adapter_errors [OF c m1 w1 f1]
       generateCss_swallows_adapter_errors [OF c m2 w2 f2] c paths
  show ?thesis
    by (auto simp: freshPlugin_def)
qed

section \<open>The settings after loading\<close>

text \<open>
  The key of an indexed property is made of digits, so it is never \<^verbatim>\<open>tagIconPairs\<close>:
  a stored array or string does not set this field.
\<close>

declare showNat.simps [simp del]

lemma digit_in: "n < 10 \<Longrightarrow> js ''0123456789'' ! n \<in> set (js ''0123456789'')"
  by (rule nth_mem) (simp add: js_def)

lemma showNat_digits: "set (showNat n) \<subseteq> set (js ''0123456789'')"
proof (induction n rule: showNat.induct)
  case (1 n)
  show ?case
  proof (cases "n < 10")
    case True
    then show ?thesis using digit_in [of n] by (subst showNat.simps) simp
  next
    case False
    then show ?thesis
      using 1 digit_in [of "n mod 10"] by (subst showNat.simps) simp
  qed
qed

lemma index_key_not_field: "showNat n \<noteq> js ''tagIconPairs''"
proof
  assume "showNat n = js ''tagIconPairs''"
  then have "set (js ''tagIconPairs'') \<subseteq> set (js ''0123456789'')"
    using showNat_digits [of n] by simp
  then show False by (simp add: js_def)
qed

lemma indexed_props_no_field:
  "map_of (zip (map showNat ns) vs) (js ''tagIconPairs'') = None"
proof -
  have "js ''tagIconPairs'' \<notin> fst ` set (zip (map showNat ns) vs)"
  proof
    assume "js ''tagIconPairs'' \<in> fst ` set (zip (map showNat ns) vs)"
    then obtain v where "(js ''tagIconPairs'', v) \<in> set (zip (map showNat ns) vs)"
      by auto
    then have "js ''tagIconPairs'' \<in> set (map showNat ns)"
      by (rule set_zip_leftD)
    then obtain n where "showNat n = js ''tagIconPairs''" by auto
    then show False using index_key_not_field [of n] by (simp only:)
  qed
  then show ?thesis unfolding map_of_eq_None_iff .
qed

text \<open>
  C9. The settings after loading are the default \<^verbatim>\<open>{ tagIconPairs: [] }\<close> with the own
  properties of the stored value copied over it (a key \<^verbatim>\<open>__proto__\<close> apart, which makes
  no property). For every stored value: the field
  \<^verbatim>\<open>tagIconPairs\<close> is the one of the stored value when that has one, and the empty
  list of the default otherwise; a stored value that is \<^verbatim>\<open>null\<close> or missing gives the
  default settings, as do a boolean and a number, and a string or an array leaves the
  field at the default.
\<close>

theorem loadSettings_merges_over_default:
  fixes loaded :: "'n jsval"
    and m :: "jsstring \<Rightarrow> 'n jsval option"
    and vs :: "'n jsval list"
    and x :: 'n
  shows "loadSettings loaded =
           settingsObj DEFAULT_SETTINGS ++ (ownProps loaded |` (- {js ''__proto__''}))
   \<and> settingsObj DEFAULT_SETTINGS = [js ''tagIconPairs'' \<mapsto> (JArr [] :: 'n jsval)]
   \<and> loadSettings loaded (js ''tagIconPairs'') =
       (case ownProps loaded (js ''tagIconPairs'') of
          None \<Rightarrow> Some (JArr [])
        | Some v \<Rightarrow> Some v)
   \<and> loadSettings (JObj m) (js ''tagIconPairs'') =
       (case m (js ''tagIconPairs'') of
          None \<Rightarrow> Some (JArr [])
        | Some v \<Rightarrow> Some v)
   \<and> loadSettings (JNull :: 'n jsval) = settingsObj DEFAULT_SETTINGS
   \<and> loadSettings (JUndefined :: 'n jsval) = settingsObj DEFAULT_SETTINGS
   \<and> loadSettings (JBool b :: 'n jsval) = settingsObj DEFAULT_SETTINGS
   \<and> loadSettings (JNum x) = settingsObj DEFAULT_SETTINGS
   \<and> loadSettings (JStr t :: 'n jsval) (js ''tagIconPairs'') = Some (JArr [])
   \<and> loadSettings (JArr vs) (js ''tagIconPairs'') = Some (JArr [])"
proof -
  have key: "js ''tagIconPairs'' \<noteq> js ''__proto__''"
    by (simp add: js_def)
  have dflt: "settingsObj DEFAULT_SETTINGS = [js ''tagIconPairs'' \<mapsto> (JArr [] :: 'n jsval)]"
    by (simp add: settingsObj_def DEFAULT_SETTINGS_def)
  have kept: "settingsObj DEFAULT_SETTINGS |` (- {js ''__proto__''})
                = (settingsObj DEFAULT_SETTINGS :: jsstring \<Rightarrow> 'n jsval option)"
    using key by (intro ext) (simp add: dflt restrict_map_def)
  have merge: "loadSettings v = settingsObj DEFAULT_SETTINGS ++ (ownProps v |` (- {js ''__proto__''}))"
    for v :: "'n jsval"
    by (simp add: loadSettings_def objectAssign_def kept)
  have field: "loadSettings v (js ''tagIconPairs'') =
       (case ownProps v (js ''tagIconPairs'') of None \<Rightarrow> Some (JArr []) | Some x \<Rightarrow> Some x)"
    for v :: "'n jsval"
    using key by (simp add: merge dflt map_add_def restrict_map_def split: option.splits)
  have obj: "loadSettings (JObj m) (js ''tagIconPairs'') =
       (case m (js ''tagIconPairs'') of None \<Rightarrow> Some (JArr []) | Some v \<Rightarrow> Some v)"
    using field [of "JObj m"] by simp
  have null: "loadSettings (JNull :: 'n jsval) = settingsObj DEFAULT_SETTINGS"
    and undef: "loadSettings (JUndefined :: 'n jsval) = settingsObj DEFAULT_SETTINGS"
    and bool: "loadSettings (JBool b :: 'n jsval) = settingsObj DEFAULT_SETTINGS"
    and num: "loadSettings (JNum x) = settingsObj DEFAULT_SETTINGS"
    by (simp_all add: merge)
  have str: "loadSettings (JStr t :: 'n jsval) (js ''tagIconPairs'') = Some (JArr [])"
    by (simp add: field indexed_props_no_field)
  have arr: "loadSettings (JArr vs) (js ''tagIconPairs'') = Some (JArr [])"
    by (simp add: field indexed_props_no_field)
  show ?thesis
    by (intro conjI) (fact merge dflt field obj null undef bool num str arr)+
qed

section \<open>Moving a row up and down\<close>

lemma at_in_range: "i < length xs \<Longrightarrow> at xs i = Some (xs ! i)"
  by (induction xs i rule: at.induct) simp_all

lemma arrGet_in_range: "i < length xs \<Longrightarrow> arrGet xs i = xs ! i"
  by (simp add: arrGet_def at_in_range)

lemma arrSet_in_range: "i < length xs \<Longrightarrow> arrSet xs i v = xs[i := v]"
  by (simp add: arrSet_def)

lemma moveUp_in_range:
  "i < length xs \<Longrightarrow> 0 < i \<Longrightarrow> moveUp i xs = xs[i - 1 := xs ! i, i := xs ! (i - 1)]"
  by (simp add: moveUp_def Let_def arrGet_in_range arrSet_in_range)

lemma moveDown_in_range:
  "i + 1 < length xs \<Longrightarrow> moveDown i xs = xs[i + 1 := xs ! i, i := xs ! (i + 1)]"
  by (simp add: moveDown_def Let_def arrGet_in_range arrSet_in_range)

lemma moveDown_last: "i + 1 \<ge> length xs \<Longrightarrow> moveDown i xs = xs"
  by (simp add: moveDown_def)

text \<open>
  C10. For every array and every row index in it: \<^emph>\<open>move up\<close> on row 0 leaves the array
  as it is, and on a row \<open>i > 0\<close> exchanges the elements at \<open>i - 1\<close> and \<open>i\<close>, the
  length and every other element unchanged; \<^emph>\<open>move down\<close> on the last row leaves the
  array as it is, and on an earlier row \<open>i\<close> exchanges the elements at \<open>i\<close> and
  \<open>i + 1\<close>, the length and every other element unchanged.
\<close>

theorem move_buttons_swap_neighbours:
  assumes "i < length xs"
  shows "length (moveUp i xs) = length xs
    \<and> (i = 0 \<longrightarrow> moveUp i xs = xs)
    \<and> (0 < i \<longrightarrow>
          moveUp i xs ! (i - 1) = xs ! i
        \<and> moveUp i xs ! i = xs ! (i - 1)
        \<and> (\<forall>k<length xs. k \<noteq> i - 1 \<and> k \<noteq> i \<longrightarrow> moveUp i xs ! k = xs ! k))
    \<and> length (moveDown i xs) = length xs
    \<and> (i = length xs - 1 \<longrightarrow> moveDown i xs = xs)
    \<and> (i < length xs - 1 \<longrightarrow>
          moveDown i xs ! i = xs ! (i + 1)
        \<and> moveDown i xs ! (i + 1) = xs ! i
        \<and> (\<forall>k<length xs. k \<noteq> i \<and> k \<noteq> i + 1 \<longrightarrow> moveDown i xs ! k = xs ! k))"
proof -
  have up0: "i = 0 \<longrightarrow> moveUp i xs = xs"
    by (simp add: moveUp_def)
  have up: "0 < i \<longrightarrow>
          moveUp i xs ! (i - 1) = xs ! i
        \<and> moveUp i xs ! i = xs ! (i - 1)
        \<and> (\<forall>k<length xs. k \<noteq> i - 1 \<and> k \<noteq> i \<longrightarrow> moveUp i xs ! k = xs ! k)"
    using assms by (auto simp: moveUp_in_range nth_list_update)
  have uplen: "length (moveUp i xs) = length xs"
  proof (cases "0 < i")
    case True
    with assms show ?thesis by (simp add: moveUp_in_range)
  next
    case False
    then show ?thesis by (simp add: moveUp_def)
  qed
  have down0: "i = length xs - 1 \<longrightarrow> moveDown i xs = xs"
    by (simp add: moveDown_last)
  have down: "i < length xs - 1 \<longrightarrow>
          moveDown i xs ! i = xs ! (i + 1)
        \<and> moveDown i xs ! (i + 1) = xs ! i
        \<and> (\<forall>k<length xs. k \<noteq> i \<and> k \<noteq> i + 1 \<longrightarrow> moveDown i xs ! k = xs ! k)"
    using assms by (auto simp: moveDown_in_range nth_list_update)
  have downlen: "length (moveDown i xs) = length xs"
  proof (cases "i + 1 < length xs")
    case True
    then show ?thesis by (simp add: moveDown_in_range)
  next
    case False
    then show ?thesis by (simp add: moveDown_last)
  qed
  from uplen up0 up downlen down0 down show ?thesis by blast
qed

theorem move_buttons_swap_neighbours_witness:
  "(1::nat) < length [Some (10::nat), Some 20, Some 30]
   \<and> moveUp 1 [Some (10::nat), Some 20, Some 30] = [Some 20, Some 10, Some 30]
   \<and> moveDown 1 [Some (10::nat), Some 20, Some 30] = [Some 10, Some 30, Some 20]
   \<and> moveUp 1 [Some (10::nat), Some 20, Some 30] ! 0 = [Some (10::nat), Some 20, Some 30] ! 1
   \<and> moveDown 1 [Some (10::nat), Some 20, Some 30] ! 2 = [Some (10::nat), Some 20, Some 30] ! 1
   \<and> length (moveUp 1 [Some (10::nat), Some 20, Some 30]) = 3"
proof -
  have h: "(1::nat) < length [Some (10::nat), Some 20, Some 30]" by simp
  have e: "moveUp 1 [Some (10::nat), Some 20, Some 30] = [Some 20, Some 10, Some 30]"
     "moveDown 1 [Some (10::nat), Some 20, Some 30] = [Some 10, Some 30, Some 20]"
    by (simp_all add: moveUp_def moveDown_def arrGet_def arrSet_def)
  show ?thesis
    using h e move_buttons_swap_neighbours [OF h] by simp
qed

end
